theory Spec2Isabelle
  imports Main "HOL-Library.AList"
begin

section \<open>Signal group resolution and membership gate (src/src/signal/groups.ts)\<close>

text \<open>
  The module keeps four module-level variables (\<open>cachedGroups\<close>, \<open>cachedAt\<close>,
  \<open>cacheAccountKey\<close>, \<open>membershipCache\<close>) and talks to the signal-cli daemon through
  \<open>signalRpcRequest\<close>. The embedding passes the module state explicitly, returns
  thrown errors as \<open>Inl\<close>, and takes as arguments everything the module reads from
  its environment:
  \<^item> the clock: each \<open>Date.now()\<close> of the source is one argument (\<open>now\<close> for the read
    at the entry of an exported function, \<open>nowInner\<close> for the read inside
    \<open>getCachedGroups\<close>);
  \<^item> \<open>signalRpcRequest\<close> (./client.js), a function from the request to either the
    thrown error or the decoded result;
  \<^item> \<open>parseSignalAllowEntry\<close> (./identity.js) and \<open>normalizeE164\<close> (../utils.js).
  Each exported function is modelled as one atomic step (the module has no locking and
  relies on the host serialising its calls).

  Strings are \<open>char list\<close>; concatenation, equality and \<open>endsWith\<close> are unit-wise as
  in JavaScript. Timestamps are integers (milliseconds).
\<close>

subsection \<open>Data\<close>

record SignalGroupMember =
  number :: "string option"
  uuid :: "string option"

record SignalGroupEntry =
  entry_id :: string
  name :: "string option"
  isMember :: "bool option"
  isBlocked :: "bool option"
  members :: "SignalGroupMember list option"

type_synonym ListGroupsResult = "SignalGroupEntry list"

text \<open>The allow entry of ./identity.js, with the fields this module reads:
  \<open>kind\<close>, \<open>e164\<close> of a phone entry and \<open>raw\<close> of a uuid entry.\<close>

datatype SignalAllowEntry = EntryAny | EntryPhone string | EntryUuid string

text \<open>What a call can throw: the \<open>new Error(message)\<close> of the resolver, or whatever
  the RPC transport threw.\<close>

datatype error = Error string | TransportFailure string

text \<open>The decoded RPC result: an array of group entries, or anything else
  (\<open>Array.isArray(result)\<close> is false).\<close>

datatype rpc_result = RpcArray ListGroupsResult | RpcNonArray

record rpc_request =
  rpc_method :: string
  rpc_params_account :: "string option"
  rpc_baseUrl :: string
  rpc_timeoutMs :: int

record signal_opts =
  baseUrl :: string
  account :: "string option"
  timeoutMs :: "int option"

record membership_decision =
  allowed :: bool
  decidedAt :: int

text \<open>
  The module state. \<open>membershipCache\<close> is the JavaScript \<open>Map\<close>: an association list
  in insertion order, read with \<open>map_of\<close>, written with \<open>AList.update\<close> (an existing
  key keeps its position, a new key goes last), \<open>decidedAt\<close> being the entry's
  \<open>cachedAt\<close> field. \<open>rpcLog\<close> is not a variable of the source: it records every
  request handed to \<open>signalRpcRequest\<close>, so that the absence of an RPC call can be stated.
\<close>

record groups_state =
  cachedGroups :: "ListGroupsResult option"
  cachedAt :: int
  cacheAccountKey :: string
  membershipCache :: "(string \<times> membership_decision) list"
  rpcLog :: "rpc_request list"

subsection \<open>JavaScript helpers\<close>

text \<open>Truthiness of a \<open>string | null | undefined\<close>: present and not empty.\<close>

definition truthy :: "string option \<Rightarrow> bool" where
  "truthy v = (case v of None \<Rightarrow> False | Some s \<Rightarrow> s \<noteq> [])"

text \<open>\<open>String.prototype.toLowerCase\<close> on the ASCII letters; group ids are base64
  strings, every other character is left as it is.\<close>

definition lowerChar :: "char \<Rightarrow> char" where
  "lowerChar c =
     (case map_of (zip ''ABCDEFGHIJKLMNOPQRSTUVWXYZ'' ''abcdefghijklmnopqrstuvwxyz'') c of
        Some d \<Rightarrow> d
      | None \<Rightarrow> c)"

definition toLowerCase :: "string \<Rightarrow> string" where
  "toLowerCase s = map lowerChar s"

text \<open>\<open>s.endsWith(t)\<close>.\<close>

definition endsWith :: "string \<Rightarrow> string \<Rightarrow> bool" where
  "endsWith s t = (length t \<le> length s \<and> drop (length s - length t) s = t)"

text \<open>A number inside a template literal: its decimal digits.\<close>

definition digitChar :: "nat \<Rightarrow> char" where
  "digitChar d = ''0123456789'' ! d"

function showNat :: "nat \<Rightarrow> string" where
  "showNat n = (if n < 10 then [digitChar n] else showNat (n div 10) @ [digitChar (n mod 10)])"
  by pat_completeness auto
termination
  by (relation "measure (\<lambda>n. n)") auto

declare showNat.simps [simp del]

subsection \<open>Constants and the directory cache\<close>

definition GROUP_ID_CACHE_TTL_MS :: int where
  "GROUP_ID_CACHE_TTL_MS = 5 * 60 * 1000"

definition MEMBERSHIP_CACHE_TTL_MS :: int where
  "MEMBERSHIP_CACHE_TTL_MS = 60 * 1000"

definition buildAccountKey :: "string \<Rightarrow> string option \<Rightarrow> string" where
  "buildAccountKey url acct = url @ ''|'' @ (case acct of None \<Rightarrow> [] | Some a \<Rightarrow> a)"

definition listGroups ::
  "(rpc_request \<Rightarrow> error + rpc_result) \<Rightarrow> signal_opts \<Rightarrow> groups_state
    \<Rightarrow> (error + ListGroupsResult) \<times> groups_state" where
  "listGroups signalRpcRequest opts s =
     (let req = \<lparr> rpc_method = ''listGroups'',
                  rpc_params_account = (if truthy (account opts) then account opts else None),
                  rpc_baseUrl = baseUrl opts,
                  rpc_timeoutMs = (case timeoutMs opts of None \<Rightarrow> 10000 | Some t \<Rightarrow> t) \<rparr>;
          s1 = s\<lparr> rpcLog := rpcLog s @ [req] \<rparr>
      in case signalRpcRequest req of
           Inl e \<Rightarrow> (Inl e, s1)
         | Inr (RpcArray gs) \<Rightarrow> (Inr gs, s1)
         | Inr RpcNonArray \<Rightarrow> (Inr [], s1))"

definition snapshotFresh :: "groups_state \<Rightarrow> string \<Rightarrow> int \<Rightarrow> bool" where
  "snapshotFresh s accountKey now =
     (cachedGroups s \<noteq> None \<and> cacheAccountKey s = accountKey
      \<and> now - cachedAt s < GROUP_ID_CACHE_TTL_MS)"

definition getCachedGroups ::
  "(rpc_request \<Rightarrow> error + rpc_result) \<Rightarrow> signal_opts \<Rightarrow> bool \<Rightarrow> int \<Rightarrow> groups_state
    \<Rightarrow> (error + ListGroupsResult) \<times> groups_state" where
  "getCachedGroups signalRpcRequest opts forceFresh now s =
     (let accountKey = buildAccountKey (baseUrl opts) (account opts) in
      case (if \<not> forceFresh \<and> snapshotFresh s accountKey now then cachedGroups s else None) of
        Some groups \<Rightarrow> (Inr groups, s)
      | None \<Rightarrow>
          (case listGroups signalRpcRequest opts s of
             (Inl e, s1) \<Rightarrow> (Inl e, s1)
           | (Inr groups, s1) \<Rightarrow>
               (Inr groups,
                s1\<lparr> cachedGroups := Some groups, cachedAt := now,
                    cacheAccountKey := accountKey \<rparr>)))"

subsection \<open>resolveSignalGroupId\<close>

definition notFoundMessage :: "string \<Rightarrow> nat \<Rightarrow> string" where
  "notFoundMessage groupId known =
     ''Signal group not found: no group matches \"'' @ groupId
       @ ''\" (case-insensitive). Known groups: '' @ showNat known"

definition ambiguousMessage :: "string \<Rightarrow> nat \<Rightarrow> string" where
  "ambiguousMessage groupId n =
     ''Signal group ID \"'' @ groupId @ ''\" is ambiguous: '' @ showNat n
       @ '' groups match case-insensitively. Provide the exact base64 group ID.''"

text \<open>The case-insensitive scan: \<open>groups.filter((g) => g.id.toLowerCase() === lowered)\<close>
  with \<open>lowered = groupId.toLowerCase()\<close>.\<close>

definition caseInsensitiveMatches :: "ListGroupsResult \<Rightarrow> string \<Rightarrow> ListGroupsResult" where
  "caseInsensitiveMatches groups groupId =
     (let lowered = toLowerCase groupId
      in filter (\<lambda>g. toLowerCase (entry_id g) = lowered) groups)"

definition resolveSignalGroupId ::
  "(rpc_request \<Rightarrow> error + rpc_result) \<Rightarrow> string \<Rightarrow> signal_opts \<Rightarrow> int \<Rightarrow> int
    \<Rightarrow> groups_state \<Rightarrow> (error + string) \<times> groups_state" where
  "resolveSignalGroupId signalRpcRequest groupId opts now nowInner s =
     (let accountKey = buildAccountKey (baseUrl opts) (account opts) in
      case (if snapshotFresh s accountKey now
            then (case cachedGroups s of
                    None \<Rightarrow> None
                  | Some cached \<Rightarrow> find (\<lambda>g. entry_id g = groupId) cached)
            else None) of
        Some exact \<Rightarrow> (Inr (entry_id exact), s)
      | None \<Rightarrow>
          (case getCachedGroups signalRpcRequest opts True nowInner s of
             (Inl e, s1) \<Rightarrow> (Inl e, s1)
           | (Inr groups, s1) \<Rightarrow>
               (case find (\<lambda>g. entry_id g = groupId) groups of
                  Some exact \<Rightarrow> (Inr (entry_id exact), s1)
                | None \<Rightarrow>
                    (let matches = caseInsensitiveMatches groups groupId
                     in case matches of
                          [m] \<Rightarrow> (Inr (entry_id m), s1)
                        | [] \<Rightarrow> (Inl (Error (notFoundMessage groupId (length groups))), s1)
                        | _ \<Rightarrow> (Inl (Error (ambiguousMessage groupId (length matches))), s1)))))"

subsection \<open>checkGroupHasRequiredMember\<close>

definition membershipKey :: "signal_opts \<Rightarrow> string \<Rightarrow> string" where
  "membershipKey opts groupId =
     buildAccountKey (baseUrl opts) (account opts) @ ''|'' @ groupId"

text \<open>\<open>membershipCache.get(cacheKey)\<close>, when the entry exists and is younger than the
  TTL.\<close>

definition freshDecision :: "groups_state \<Rightarrow> string \<Rightarrow> int \<Rightarrow> membership_decision option" where
  "freshDecision s cacheKey now =
     (case map_of (membershipCache s) cacheKey of
        None \<Rightarrow> None
      | Some cached \<Rightarrow>
          if now - decidedAt cached < MEMBERSHIP_CACHE_TTL_MS then Some cached else None)"

definition findGroup :: "ListGroupsResult \<Rightarrow> string \<Rightarrow> SignalGroupEntry option" where
  "findGroup groups groupId =
     (case find (\<lambda>g. entry_id g = groupId) groups of
        Some g \<Rightarrow> Some g
      | None \<Rightarrow> find (\<lambda>g. toLowerCase (entry_id g) = toLowerCase groupId) groups)"

definition memberMatches ::
  "(string \<Rightarrow> string option) \<Rightarrow> string list \<Rightarrow> string list \<Rightarrow> SignalGroupMember \<Rightarrow> bool" where
  "memberMatches normalizeE164 requiredPhones requiredUuids mem =
     (if truthy (number mem)
          \<and> (case number mem of
                None \<Rightarrow> False
              | Some n \<Rightarrow> truthy (normalizeE164 n)
                          \<and> (case normalizeE164 n of
                                None \<Rightarrow> False
                              | Some p \<Rightarrow> p \<in> set requiredPhones))
      then True
      else if truthy (uuid mem)
              \<and> (case uuid mem of None \<Rightarrow> False | Some u \<Rightarrow> u \<in> set requiredUuids)
      then True
      else False)"

definition checkGroupHasRequiredMember ::
  "(rpc_request \<Rightarrow> error + rpc_result) \<Rightarrow> (string \<Rightarrow> SignalAllowEntry option)
    \<Rightarrow> (string \<Rightarrow> string option) \<Rightarrow> string \<Rightarrow> string list \<Rightarrow> signal_opts \<Rightarrow> int \<Rightarrow> int
    \<Rightarrow> groups_state \<Rightarrow> (error + bool) \<times> groups_state" where
  "checkGroupHasRequiredMember signalRpcRequest parseSignalAllowEntry normalizeE164
       groupId requiredNumbers opts now nowInner s =
     (if requiredNumbers = [] then (Inr True, s)
      else
        let cacheKey = membershipKey opts groupId in
        case freshDecision s cacheKey now of
          Some cached \<Rightarrow> (Inr (allowed cached), s)
        | None \<Rightarrow>
            (case getCachedGroups signalRpcRequest opts False nowInner s of
               (Inl e, s1) \<Rightarrow> (Inl e, s1)
             | (Inr groups, s1) \<Rightarrow>
                 (case findGroup groups groupId of
                    None \<Rightarrow>
                      (Inr False,
                       s1\<lparr> membershipCache :=
                             AList.update cacheKey \<lparr> allowed = False, decidedAt = now \<rparr>
                               (membershipCache s1) \<rparr>)
                  | Some grp \<Rightarrow>
                      (let mems = (case members grp of None \<Rightarrow> [] | Some ms \<Rightarrow> ms);
                           parsedRequired = List.map_filter parseSignalAllowEntry requiredNumbers
                       in if list_ex (\<lambda>entry. entry = EntryAny) parsedRequired
                          then (Inr True,
                                s1\<lparr> membershipCache :=
                                      AList.update cacheKey \<lparr> allowed = True, decidedAt = now \<rparr>
                                        (membershipCache s1) \<rparr>)
                          else
                            let requiredPhones = [p. EntryPhone p \<leftarrow> parsedRequired];
                                requiredUuids = [r. EntryUuid r \<leftarrow> parsedRequired];
                                isAllowed =
                                  list_ex (memberMatches normalizeE164 requiredPhones requiredUuids)
                                    mems
                            in (Inr isAllowed,
                                s1\<lparr> membershipCache :=
                                      AList.update cacheKey
                                        \<lparr> allowed = isAllowed, decidedAt = now \<rparr>
                                        (membershipCache s1) \<rparr>)))))"

subsection \<open>invalidateGroupMembershipCache\<close>

text \<open>The loop over \<open>membershipCache.keys()\<close>, deleting the keys that end with
  \<open>|\<close> followed by the group id.\<close>

fun deleteMatching :: "string \<Rightarrow> string list \<Rightarrow> (string \<times> membership_decision) list
    \<Rightarrow> (string \<times> membership_decision) list" where
  "deleteMatching sfx [] m = m"
| "deleteMatching sfx (key # keys) m =
     deleteMatching sfx keys (if endsWith key sfx then AList.delete key m else m)"

definition invalidateGroupMembershipCache :: "string option \<Rightarrow> groups_state \<Rightarrow> groups_state" where
  "invalidateGroupMembershipCache groupId s =
     (let s1 = (if truthy groupId
                then s\<lparr> membershipCache :=
                         deleteMatching (''|'' @ (case groupId of None \<Rightarrow> [] | Some g \<Rightarrow> g))
                           (map fst (membershipCache s)) (membershipCache s) \<rparr>
                else s\<lparr> membershipCache := [] \<rparr>)
      in s1\<lparr> cachedAt := 0 \<rparr>)"

section \<open>Sample collaborators and states for evaluating the theorems\<close>

text \<open>
  The theorems below hold for every parser, normalizer and daemon. To evaluate them at
  concrete inputs, these are small instances of the three collaborators: a parser that
  knows the wildcard, \<open>+\<close>-numbers and \<open>uuid:\<close> entries, a normalizer that accepts
  \<open>+\<close>-numbers, a daemon that answers every request with a given directory and one
  whose transport always fails. The directories and options follow groups.test.ts.
\<close>

definition sampleParse :: "string \<Rightarrow> SignalAllowEntry option" where
  "sampleParse e =
     (if e = ''*'' then Some EntryAny
      else if take 1 e = ''+'' then Some (EntryPhone e)
      else if take 5 e = ''uuid:'' \<and> drop 5 e \<noteq> [] then Some (EntryUuid (drop 5 e))
      else None)"

definition sampleNormalize :: "string \<Rightarrow> string option" where
  "sampleNormalize n = (if take 1 n = ''+'' then Some n else None)"

definition makeGroup :: "string \<Rightarrow> SignalGroupMember list \<Rightarrow> SignalGroupEntry" where
  "makeGroup gid ms =
     \<lparr> entry_id = gid, name = Some (''Group '' @ gid), isMember = Some True,
       isBlocked = Some False, members = Some ms \<rparr>"

definition sampleDirectory :: ListGroupsResult where
  "sampleDirectory =
     [makeGroup ''AbC123dEf=''
        [\<lparr> number = Some ''+15551111111'', uuid = Some ''uuid-1'' \<rparr>,
         \<lparr> number = None, uuid = Some ''uuid-2'' \<rparr>],
      makeGroup ''def456'' []]"

definition twinDirectory :: ListGroupsResult where
  "twinDirectory = [makeGroup ''abc'' [], makeGroup ''ABC'' [], makeGroup ''Abc'' []]"

definition rpcReturning :: "ListGroupsResult \<Rightarrow> rpc_request \<Rightarrow> error + rpc_result" where
  "rpcReturning groups req = Inr (RpcArray groups)"

definition rpcFailing :: "rpc_request \<Rightarrow> error + rpc_result" where
  "rpcFailing req = Inl (TransportFailure ''timeout'')"

definition BASE_OPTS :: signal_opts where
  "BASE_OPTS = \<lparr> baseUrl = ''http://localhost:8080'', account = Some ''+10000000000'',
                 timeoutMs = None \<rparr>"

definition emptyState :: groups_state where
  "emptyState = \<lparr> cachedGroups = None, cachedAt = 0, cacheAccountKey = [],
                  membershipCache = [], rpcLog = [] \<rparr>"

text \<open>A state whose directory snapshot was fetched at time 999000 for \<open>BASE_OPTS\<close> and
  whose decision cache is still empty.\<close>

definition warmState :: groups_state where
  "warmState = \<lparr> cachedGroups = Some sampleDirectory, cachedAt = 999000,
                 cacheAccountKey = ''http://localhost:8080|+10000000000'',
                 membershipCache = [], rpcLog = [] \<rparr>"

text \<open>A state with decisions cached for three group ids: a lower-cased id, its
  canonical spelling, and an id that merely ends with the letters of another.\<close>

definition decidedState :: groups_state where
  "decidedState = \<lparr> cachedGroups = Some sampleDirectory, cachedAt = 999000,
       cacheAccountKey = ''http://localhost:8080|+10000000000'',
       membershipCache =
         [(''http://localhost:8080|+10000000000|abc123def='',
             \<lparr> allowed = True, decidedAt = 999500 \<rparr>),
          (''http://localhost:8080|+10000000000|AbC123dEf='',
             \<lparr> allowed = True, decidedAt = 999600 \<rparr>),
          (''http://localhost:8080|+10000000000|xabc'',
             \<lparr> allowed = False, decidedAt = 999700 \<rparr>)],
       rpcLog = [] \<rparr>"

text \<open>The states reached by one gate call for the lower-cased id of the first sample
  group, from the empty state and from the warm one.\<close>

definition afterFirstCheck :: groups_state where
  "afterFirstCheck =
     snd (checkGroupHasRequiredMember (rpcReturning sampleDirectory) sampleParse sampleNormalize
            ''abc123def='' [''+15551111111''] BASE_OPTS 1000000 1000001 emptyState)"

definition afterWarmCheck :: groups_state where
  "afterWarmCheck =
     snd (checkGroupHasRequiredMember (rpcReturning sampleDirectory) sampleParse sampleNormalize
            ''abc123def='' [''+15551111111''] BASE_OPTS 1000000 1000001 warmState)"

section \<open>Auxiliary lemmas\<close>


subsection \<open>Lists, suffixes and the decision cache\<close>

lemma find_SomeD: "find P xs = Some x \<Longrightarrow> x \<in> set xs \<and> P x"
  by (induction xs) (auto split: if_splits)

lemma set_map_filter_parse:
  "set (List.map_filter f xs) = {e. \<exists>x\<in>set xs. f x = Some e}"
  by (induction xs) (auto split: option.splits)

lemma set_phones: "set [p. EntryPhone p \<leftarrow> es] = {p. EntryPhone p \<in> set es}"
  by (induction es) (auto split: SignalAllowEntry.splits)

lemma set_uuids: "set [r. EntryUuid r \<leftarrow> es] = {r. EntryUuid r \<in> set es}"
  by (induction es) (auto split: SignalAllowEntry.splits)

lemma length_toLowerCase: "length (toLowerCase s) = length s"
  by (simp add: toLowerCase_def)

lemma endsWith_iff: "endsWith s t \<longleftrightarrow> (\<exists>zs. s = zs @ t)"
proof
  assume "endsWith s t"
  then have "s = take (length s - length t) s @ t"
    by (metis append_take_drop_id endsWith_def)
  then show "\<exists>zs. s = zs @ t" ..
next
  assume "\<exists>zs. s = zs @ t"
  then show "endsWith s t"
    by (auto simp: endsWith_def)
qed

lemma endsWith_same_length:
  "length g' = length g \<Longrightarrow> endsWith (ak @ ''|'' @ g') (''|'' @ g) \<longleftrightarrow> g' = g"
  by (auto simp: endsWith_def)

lemma endsWith_no_delimiter:
  assumes "CHR ''|'' \<notin> set g" and "CHR ''|'' \<notin> set g'"
  shows "endsWith (ak @ ''|'' @ g') (''|'' @ g) \<longleftrightarrow> g' = g"
proof
  assume "endsWith (ak @ ''|'' @ g') (''|'' @ g)"
  then obtain zs where eq: "ak @ CHR ''|'' # g' = zs @ CHR ''|'' # g"
    by (auto simp: endsWith_iff)
  then show "g' = g"
    using assms
    by (auto simp: append_eq_append_conv2 append_eq_Cons_conv Cons_eq_append_conv)
next
  assume "g' = g"
  then show "endsWith (ak @ ''|'' @ g') (''|'' @ g)"
    by (auto simp: endsWith_iff)
qed

text \<open>The deletion loop removes exactly the visited keys that end with the suffix.\<close>

lemma map_of_deleteMatching:
  "map_of (deleteMatching sfx keys m) k =
     (if endsWith k sfx \<and> k \<in> set keys then None else map_of m k)"
  by (induction keys arbitrary: m) (auto simp: AList.delete_conv')

lemma map_of_deleteMatching_keys:
  "map_of (deleteMatching sfx (map fst m) m) k = (if endsWith k sfx then None else map_of m k)"
  by (auto simp: map_of_deleteMatching map_of_eq_None_iff)

lemma map_of_invalidate_Some:
  "g \<noteq> [] \<Longrightarrow>
   map_of (membershipCache (invalidateGroupMembershipCache (Some g) s)) k =
     (if endsWith k (''|'' @ g) then None else map_of (membershipCache s) k)"
  by (simp add: invalidateGroupMembershipCache_def truthy_def map_of_deleteMatching_keys)

lemma invalidate_frame:
  "cachedAt (invalidateGroupMembershipCache x s) = 0
   \<and> cachedGroups (invalidateGroupMembershipCache x s) = cachedGroups s
   \<and> cacheAccountKey (invalidateGroupMembershipCache x s) = cacheAccountKey s
   \<and> rpcLog (invalidateGroupMembershipCache x s) = rpcLog s"
  by (simp add: invalidateGroupMembershipCache_def Let_def)

lemma invalidate_None: "membershipCache (invalidateGroupMembershipCache None s) = []"
  by (simp add: invalidateGroupMembershipCache_def truthy_def)

subsection \<open>The paths of checkGroupHasRequiredMember\<close>

lemma memberMatches_iff:
  "memberMatches norm phones uuids m \<longleftrightarrow>
     (\<exists>n p. number m = Some n \<and> n \<noteq> [] \<and> norm n = Some p \<and> p \<noteq> [] \<and> p \<in> set phones)
     \<or> (\<exists>u. uuid m = Some u \<and> u \<noteq> [] \<and> u \<in> set uuids)"
  by (auto simp: memberMatches_def truthy_def split: option.splits)

lemma freshDecision_None_iff:
  "freshDecision s k now = None \<longleftrightarrow>
     (\<forall>d. map_of (membershipCache s) k = Some d \<longrightarrow> 60000 \<le> now - decidedAt d)"
  by (auto simp: freshDecision_def MEMBERSHIP_CACHE_TTL_MS_def split: option.splits)

lemma findGroup_None_iff:
  "findGroup groups gid = None \<longleftrightarrow>
     (\<forall>g\<in>set groups. entry_id g \<noteq> gid \<and> toLowerCase (entry_id g) \<noteq> toLowerCase gid)"
  by (auto simp: findGroup_def find_None_iff split: option.splits dest: find_SomeD)

lemma check_hit:
  assumes "req \<noteq> []" and "freshDecision s (membershipKey opts gid) now = Some d"
  shows "checkGroupHasRequiredMember rpc parse norm gid req opts now nowInner s
           = (Inr (allowed d), s)"
  using assms by (simp add: checkGroupHasRequiredMember_def)

lemma check_not_located:
  assumes "req \<noteq> []"
    and "freshDecision s (membershipKey opts gid) now = None"
    and "getCachedGroups rpc opts False nowInner s = (Inr groups, s1)"
    and "findGroup groups gid = None"
  shows "checkGroupHasRequiredMember rpc parse norm gid req opts now nowInner s =
           (Inr False,
            s1\<lparr> membershipCache :=
                  AList.update (membershipKey opts gid) \<lparr> allowed = False, decidedAt = now \<rparr>
                    (membershipCache s1) \<rparr>)"
  using assms by (simp add: checkGroupHasRequiredMember_def)

lemma check_located:
  assumes "req \<noteq> []"
    and "freshDecision s (membershipKey opts gid) now = None"
    and "getCachedGroups rpc opts False nowInner s = (Inr groups, s1)"
    and "findGroup groups gid = Some grp"
    and "b = ((\<exists>n\<in>set req. parse n = Some EntryAny)
              \<or> (\<exists>m\<in>set (case members grp of None \<Rightarrow> [] | Some ms \<Rightarrow> ms).
                    (\<exists>n p. number m = Some n \<and> n \<noteq> [] \<and> norm n = Some p \<and> p \<noteq> []
                        \<and> (\<exists>x\<in>set req. parse x = Some (EntryPhone p)))
                    \<or> (\<exists>u. uuid m = Some u \<and> u \<noteq> []
                        \<and> (\<exists>x\<in>set req. parse x = Some (EntryUuid u)))))"
  shows "checkGroupHasRequiredMember rpc parse norm gid req opts now nowInner s =
           (Inr b,
            s1\<lparr> membershipCache :=
                  AList.update (membershipKey opts gid) \<lparr> allowed = b, decidedAt = now \<rparr>
                    (membershipCache s1) \<rparr>)"
proof -
  let ?parsed = "List.map_filter parse req"
  have any: "list_ex (\<lambda>entry. entry = EntryAny) ?parsed \<longleftrightarrow> (\<exists>n\<in>set req. parse n = Some EntryAny)"
    by (auto simp: list_ex_iff set_map_filter_parse)
  show ?thesis
  proof (cases "\<exists>n\<in>set req. parse n = Some EntryAny")
    case True
    with assms any show ?thesis
      by (simp add: checkGroupHasRequiredMember_def Let_def)
  next
    case False
    with assms any show ?thesis
      by (simp add: checkGroupHasRequiredMember_def Let_def list_ex_iff memberMatches_iff
          set_phones set_uuids set_map_filter_parse)
  qed
qed

lemma getCachedGroups_error:
  assumes "getCachedGroups rpc opts force nowInner s = (Inl e, s1)"
  shows "\<exists>req. rpc req = Inl e \<and> rpcLog s1 = rpcLog s @ [req]"
  using assms
  by (auto simp: getCachedGroups_def listGroups_def Let_def
      split: if_splits option.splits sum.splits rpc_result.splits prod.splits)

lemma getCachedGroups_log:
  assumes "getCachedGroups rpc opts False nowInner s = (res, s1)"
  shows "membershipCache s1 = membershipCache s
       \<and> length (rpcLog s1) = length (rpcLog s)
           + (if snapshotFresh s (buildAccountKey (baseUrl opts) (account opts)) nowInner
              then 0 else 1)"
  using assms
  by (auto simp: getCachedGroups_def listGroups_def Let_def snapshotFresh_def
      split: if_splits option.splits sum.splits rpc_result.splits prod.splits)

lemma check_error:
  assumes "checkGroupHasRequiredMember rpc parse norm gid req opts now nowInner s = (Inl e, s1)"
  shows "\<exists>rq. rpc rq = Inl e \<and> rpcLog s1 = rpcLog s @ [rq]"
proof -
  obtain res s2 where g: "getCachedGroups rpc opts False nowInner s = (res, s2)"
    by (cases "getCachedGroups rpc opts False nowInner s")
  from assms g have "res = Inl e \<and> s2 = s1"
    by (cases res)
      (auto simp: checkGroupHasRequiredMember_def Let_def
        split: if_splits option.splits)
  with g show ?thesis
    using getCachedGroups_error by blast
qed

lemma check_transport_failure:
  assumes "req \<noteq> []"
    and "freshDecision s (membershipKey opts gid) now = None"
    and "\<not> snapshotFresh s (buildAccountKey (baseUrl opts) (account opts)) nowInner"
    and "rpc \<lparr> rpc_method = ''listGroups'',
               rpc_params_account = (if truthy (account opts) then account opts else None),
               rpc_baseUrl = baseUrl opts,
               rpc_timeoutMs = (case timeoutMs opts of None \<Rightarrow> 10000 | Some t \<Rightarrow> t) \<rparr>
         = Inl e"
  shows "checkGroupHasRequiredMember rpc parse norm gid req opts now nowInner s =
           (Inl e,
            s\<lparr> rpcLog := rpcLog s @
                 [\<lparr> rpc_method = ''listGroups'',
                    rpc_params_account = (if truthy (account opts) then account opts else None),
                    rpc_baseUrl = baseUrl opts,
                    rpc_timeoutMs = (case timeoutMs opts of None \<Rightarrow> 10000 | Some t \<Rightarrow> t) \<rparr>] \<rparr>)"
  using assms
  by (simp add: checkGroupHasRequiredMember_def getCachedGroups_def listGroups_def Let_def)

lemma check_miss_written:
  assumes "req \<noteq> []"
    and "freshDecision s (membershipKey opts gid) now = None"
    and "checkGroupHasRequiredMember rpc parse norm gid req opts now nowInner s = (Inr b, s1)"
  shows "map_of (membershipCache s1) (membershipKey opts gid)
           = Some \<lparr> allowed = b, decidedAt = now \<rparr>
       \<and> length (rpcLog s1) = length (rpcLog s)
           + (if snapshotFresh s (buildAccountKey (baseUrl opts) (account opts)) nowInner
              then 0 else 1)"
proof -
  obtain res s2 where g: "getCachedGroups rpc opts False nowInner s = (res, s2)"
    by (cases "getCachedGroups rpc opts False nowInner s")
  note lg = getCachedGroups_log [OF g]
  from assms(3) obtain groups where res: "res = Inr groups"
    using assms(1,2) g by (cases res) (auto simp: checkGroupHasRequiredMember_def)
  show ?thesis
  proof (cases "findGroup groups gid")
    case None
    from check_not_located [OF assms(1,2) g [unfolded res] None, of parse norm] assms(3) lg
    show ?thesis by (auto simp: AList.update_conv')
  next
    case (Some grp)
    from check_located [OF assms(1,2) g [unfolded res] Some refl, of parse norm] assms(3) lg
    show ?thesis by (auto simp: AList.update_conv')
  qed
qed

subsection \<open>The paths of resolveSignalGroupId\<close>

lemma find_exact_Some:
  "(\<exists>g\<in>set groups. entry_id g = q) \<Longrightarrow>
   \<exists>exact. find (\<lambda>g. entry_id g = q) groups = Some exact \<and> exact \<in> set groups \<and> entry_id exact = q"
  by (cases "find (\<lambda>g. entry_id g = q) groups") (auto simp: find_None_iff dest: find_SomeD)

lemma resolve_fast:
  assumes "snapshotFresh s (buildAccountKey (baseUrl opts) (account opts)) now"
    and "cachedGroups s = Some cached"
    and "find (\<lambda>g. entry_id g = q) cached = Some exact"
  shows "resolveSignalGroupId rpc q opts now nowInner s = (Inr (entry_id exact), s)"
  using assms by (simp add: resolveSignalGroupId_def)

lemma getCachedGroups_forced:
  "listGroups rpc opts s = (Inr groups, s1) \<Longrightarrow>
   getCachedGroups rpc opts True nowInner s =
     (Inr groups, s1\<lparr> cachedGroups := Some groups, cachedAt := nowInner,
                      cacheAccountKey := buildAccountKey (baseUrl opts) (account opts) \<rparr>)"
  by (simp add: getCachedGroups_def)

lemma resolve_fetch:
  assumes "\<not> (snapshotFresh s (buildAccountKey (baseUrl opts) (account opts)) now
              \<and> (\<exists>cached. cachedGroups s = Some cached \<and> (\<exists>g\<in>set cached. entry_id g = q)))"
    and "listGroups rpc opts s = (Inr groups, s1)"
  shows "fst (resolveSignalGroupId rpc q opts now nowInner s) =
           (case find (\<lambda>g. entry_id g = q) groups of
              Some exact \<Rightarrow> Inr (entry_id exact)
            | None \<Rightarrow>
                (case filter (\<lambda>g. toLowerCase (entry_id g) = toLowerCase q) groups of
                   [m] \<Rightarrow> Inr (entry_id m)
                 | [] \<Rightarrow> Inl (Error (notFoundMessage q (length groups)))
                 | ms \<Rightarrow> Inl (Error (ambiguousMessage q (length ms)))))"
proof -
  have fast: "(if snapshotFresh s (buildAccountKey (baseUrl opts) (account opts)) now
            then (case cachedGroups s of
                    None \<Rightarrow> None
                  | Some cached \<Rightarrow> find (\<lambda>g. entry_id g = q) cached)
            else None) = None"
    using assms(1) by (auto simp: find_None_iff split: option.splits)
  show ?thesis
    unfolding resolveSignalGroupId_def caseInsensitiveMatches_def Let_def fast
      getCachedGroups_forced [OF assms(2)]
    by (simp split: option.splits list.splits)
qed

subsection \<open>Evaluating the samples\<close>

lemmas gate_defs =
  getCachedGroups_def listGroups_def rpcReturning_def rpcFailing_def emptyState_def
  snapshotFresh_def BASE_OPTS_def buildAccountKey_def truthy_def Let_def membershipKey_def
  GROUP_ID_CACHE_TTL_MS_def warmState_def decidedState_def

lemmas directory_defs =
  sampleDirectory_def twinDirectory_def makeGroup_def toLowerCase_def lowerChar_def

lemmas check_defs = checkGroupHasRequiredMember_def freshDecision_def findGroup_def
  memberMatches_def MEMBERSHIP_CACHE_TTL_MS_def

lemmas eval_defs = check_defs gate_defs directory_defs sampleParse_def sampleNormalize_def

lemma sample_fetch:
  "getCachedGroups (rpcReturning sampleDirectory) BASE_OPTS False 1000001 emptyState
     = (Inr sampleDirectory,
        snd (getCachedGroups (rpcReturning sampleDirectory) BASE_OPTS False 1000001 emptyState))"
  by (simp add: gate_defs)

lemma sample_locate_lowered:
  "(case find (\<lambda>g. entry_id g = ''abc123def='') sampleDirectory of
      Some g \<Rightarrow> Some g
    | None \<Rightarrow> find (\<lambda>g. toLowerCase (entry_id g) = toLowerCase ''abc123def='') sampleDirectory)
   = Some (makeGroup ''AbC123dEf=''
        [\<lparr> number = Some ''+15551111111'', uuid = Some ''uuid-1'' \<rparr>,
         \<lparr> number = None, uuid = Some ''uuid-2'' \<rparr>])"
  by (simp add: directory_defs)

lemma sample_locate_empty:
  "(case find (\<lambda>g. entry_id g = ''def456'') sampleDirectory of
      Some g \<Rightarrow> Some g
    | None \<Rightarrow> find (\<lambda>g. toLowerCase (entry_id g) = toLowerCase ''def456'') sampleDirectory)
   = Some (makeGroup ''def456'' [])"
  by (simp add: directory_defs)

lemma empty_miss:
  "\<forall>d. map_of (membershipCache emptyState) k = Some d \<longrightarrow> 60000 \<le> t - decidedAt d"
  by (simp add: emptyState_def)

lemma empty_no_fast_path:
  "\<not> (snapshotFresh emptyState (buildAccountKey (baseUrl BASE_OPTS) (account BASE_OPTS)) 1000000
       \<and> (\<exists>cached. cachedGroups emptyState = Some cached \<and> (\<exists>g\<in>set cached. entry_id g = q)))"
  by (simp add: snapshotFresh_def emptyState_def)

lemma sample_listGroups:
  "listGroups (rpcReturning ds) BASE_OPTS emptyState
     = (Inr ds, snd (listGroups (rpcReturning ds) BASE_OPTS emptyState))"
  by (simp add: listGroups_def rpcReturning_def Let_def)

section \<open>Theorems\<close>


subsection \<open>The membership gate\<close>

text \<open>
  C6. For every groupId and options, checkGroupHasRequiredMember called with an empty
  required-entries list returns true immediately, issues no RPC call and writes to
  neither cache: the whole module state, request log included, is returned unchanged.
\<close>

theorem check_empty_requirement:
  "checkGroupHasRequiredMember signalRpcRequest parseSignalAllowEntry normalizeE164
     groupId [] opts now nowInner s = (Inr True, s)"
  by (simp add: checkGroupHasRequiredMember_def)

text \<open>
  C1. Take a call with a non-empty requirement list that reaches the directory lookup:
  the decision cache holds no entry younger than 60 s for the key, \<open>getCachedGroups\<close>
  delivers the snapshot \<open>groups\<close>, and the gate locates \<open>grp\<close> in it (the first group
  whose id equals the query, else the first whose lower-cased id equals the lower-cased
  query). If no entry parses to the wildcard, the call returns true if and only if some
  member of \<open>grp\<close> has a phone number whose normalization is in the set of required phone
  numbers, or has a uuid that is in the set of required uuids. A member has a phone
  number or a uuid when the field is present and not the empty string, and a
  normalization counts when it is not empty (JavaScript truthiness, as the source tests
  it). The returned boolean is written to the decision cache under the key, stamped
  \<open>now\<close>.
\<close>

theorem check_membership_decides:
  assumes "requiredNumbers \<noteq> []"
    and "\<forall>d. map_of (membershipCache s) (membershipKey opts groupId) = Some d
             \<longrightarrow> 60000 \<le> now - decidedAt d"
    and "getCachedGroups signalRpcRequest opts False nowInner s = (Inr groups, s1)"
    and "(case find (\<lambda>g. entry_id g = groupId) groups of
            Some g \<Rightarrow> Some g
          | None \<Rightarrow> find (\<lambda>g. toLowerCase (entry_id g) = toLowerCase groupId) groups)
         = Some grp"
    and "\<forall>n\<in>set requiredNumbers. parseSignalAllowEntry n \<noteq> Some EntryAny"
    and "r = checkGroupHasRequiredMember signalRpcRequest parseSignalAllowEntry normalizeE164
               groupId requiredNumbers opts now nowInner s"
  shows "(fst r = Inr True \<longleftrightarrow>
            (\<exists>m\<in>set (case members grp of None \<Rightarrow> [] | Some ms \<Rightarrow> ms).
               (\<exists>n p. number m = Some n \<and> n \<noteq> [] \<and> normalizeE164 n = Some p \<and> p \<noteq> []
                   \<and> p \<in> {e. \<exists>x\<in>set requiredNumbers. parseSignalAllowEntry x = Some (EntryPhone e)})
               \<or> (\<exists>u. uuid m = Some u \<and> u \<noteq> []
                   \<and> u \<in> {e. \<exists>x\<in>set requiredNumbers. parseSignalAllowEntry x = Some (EntryUuid e)})))
         \<and> (\<exists>b. fst r = Inr b
                \<and> map_of (membershipCache (snd r)) (membershipKey opts groupId)
                    = Some \<lparr> allowed = b, decidedAt = now \<rparr>)"
proof -
  have miss: "freshDecision s (membershipKey opts groupId) now = None"
    using assms(2) by (simp add: freshDecision_None_iff)
  have loc: "findGroup groups groupId = Some grp"
    using assms(4) by (simp add: findGroup_def)
  have noany: "\<not> (\<exists>n\<in>set requiredNumbers. parseSignalAllowEntry n = Some EntryAny)"
    using assms(5) by blast
  show ?thesis
    unfolding assms(6)
      check_located [OF assms(1) miss assms(3) loc refl, of parseSignalAllowEntry normalizeE164]
    using noany by (simp add: AList.update_conv')
qed

text \<open>The two gate examples of the specification: the first sample group, queried by its
  lower-cased id, satisfies the requirement +15551111111 and does not satisfy +15559999999.\<close>

theorem check_membership_decides_witness:
  "fst (checkGroupHasRequiredMember (rpcReturning sampleDirectory) sampleParse sampleNormalize
          ''abc123def='' [''+15551111111''] BASE_OPTS 1000000 1000001 emptyState) = Inr True
   \<and> fst (checkGroupHasRequiredMember (rpcReturning sampleDirectory) sampleParse sampleNormalize
          ''abc123def='' [''+15559999999''] BASE_OPTS 1000000 1000001 emptyState) = Inr False"
proof -
  have miss: "\<forall>d. map_of (membershipCache emptyState) (membershipKey BASE_OPTS ''abc123def='') = Some d
             \<longrightarrow> 60000 \<le> 1000000 - decidedAt d"
    by (simp add: emptyState_def)
  have p1: "\<forall>n\<in>set [''+15551111111'']. sampleParse n \<noteq> Some EntryAny"
    by (simp add: sampleParse_def)
  have p2: "\<forall>n\<in>set [''+15559999999'']. sampleParse n \<noteq> Some EntryAny"
    by (simp add: sampleParse_def)
  have ne1: "[''+15551111111''] \<noteq> []" and ne2: "[''+15559999999''] \<noteq> []"
    by simp_all
  note t1 = check_membership_decides [OF ne1 miss sample_fetch sample_locate_lowered p1 refl,
      of sampleNormalize]
  note t2 = check_membership_decides [OF ne2 miss sample_fetch sample_locate_lowered p2 refl,
      of sampleNormalize]
  let ?r1 = "checkGroupHasRequiredMember (rpcReturning sampleDirectory) sampleParse
          sampleNormalize ''abc123def='' [''+15551111111''] BASE_OPTS 1000000 1000001 emptyState"
  let ?r2 = "checkGroupHasRequiredMember (rpcReturning sampleDirectory) sampleParse
          sampleNormalize ''abc123def='' [''+15559999999''] BASE_OPTS 1000000 1000001 emptyState"
  have a: "fst ?r1 = Inr True"
    by (rule iffD2 [OF t1 [THEN conjunct1]])
      (simp add: makeGroup_def sampleParse_def sampleNormalize_def)
  have "fst ?r2 \<noteq> Inr True"
  proof
    assume "fst ?r2 = Inr True"
    from iffD1 [OF t2 [THEN conjunct1] this] show False
      by (simp add: makeGroup_def sampleParse_def sampleNormalize_def)
  qed
  moreover from t2 [THEN conjunct2] obtain c where "fst ?r2 = Inr c"
    by blast
  ultimately have b: "fst ?r2 = Inr False"
    by (cases c) simp_all
  from a b show ?thesis by simp
qed

text \<open>
  C7. With a non-empty requirement list, no decision younger than 60 s cached for the
  key, and a directory snapshot in which no group matches the queried id exactly or
  case-insensitively, the gate returns false and caches false under the key. And
  whenever the gate fails with an error \<open>e\<close>, that error is the one the RPC transport
  threw for the request the call issued: a group that is not found and a group without
  a matching member are never errors. Conversely a failure of the transport propagates:
  when the call has to fetch (non-empty list, no decision younger than 60 s, no fresh
  same-key directory snapshot) and the transport throws \<open>e\<close> for the \<open>listGroups\<close>
  request, the gate fails with \<open>e\<close>, and the state is as before but for the one request
  in the log: nothing is written to either cache.
\<close>

theorem check_group_not_found:
  assumes "r = checkGroupHasRequiredMember signalRpcRequest parseSignalAllowEntry normalizeE164
               groupId requiredNumbers opts now nowInner s"
  shows "(requiredNumbers \<noteq> []
          \<and> (\<forall>d. map_of (membershipCache s) (membershipKey opts groupId) = Some d
                 \<longrightarrow> 60000 \<le> now - decidedAt d)
          \<and> getCachedGroups signalRpcRequest opts False nowInner s = (Inr groups, s1)
          \<and> (\<forall>g\<in>set groups. entry_id g \<noteq> groupId
                 \<and> toLowerCase (entry_id g) \<noteq> toLowerCase groupId)
          \<longrightarrow> fst r = Inr False
              \<and> map_of (membershipCache (snd r)) (membershipKey opts groupId)
                  = Some \<lparr> allowed = False, decidedAt = now \<rparr>)
         \<and> (\<forall>e. fst r = Inl e
               \<longrightarrow> (\<exists>rq. signalRpcRequest rq = Inl e \<and> rpcLog (snd r) = rpcLog s @ [rq]))
         \<and> (requiredNumbers \<noteq> []
             \<and> (\<forall>d. map_of (membershipCache s) (membershipKey opts groupId) = Some d
                    \<longrightarrow> 60000 \<le> now - decidedAt d)
             \<and> \<not> snapshotFresh s (buildAccountKey (baseUrl opts) (account opts)) nowInner
             \<and> signalRpcRequest
                  \<lparr> rpc_method = ''listGroups'',
                    rpc_params_account = (if truthy (account opts) then account opts else None),
                    rpc_baseUrl = baseUrl opts,
                    rpc_timeoutMs = (case timeoutMs opts of None \<Rightarrow> 10000 | Some t \<Rightarrow> t) \<rparr>
                = Inl failure
             \<longrightarrow> r = (Inl failure,
                      s\<lparr> rpcLog := rpcLog s @
                           [\<lparr> rpc_method = ''listGroups'',
                              rpc_params_account = (if truthy (account opts) then account opts else None),
                              rpc_baseUrl = baseUrl opts,
                              rpc_timeoutMs = (case timeoutMs opts of None \<Rightarrow> 10000 | Some t \<Rightarrow> t) \<rparr>] \<rparr>))"
proof (intro conjI impI allI)
  assume h: "requiredNumbers \<noteq> []
          \<and> (\<forall>d. map_of (membershipCache s) (membershipKey opts groupId) = Some d
                 \<longrightarrow> 60000 \<le> now - decidedAt d)
          \<and> getCachedGroups signalRpcRequest opts False nowInner s = (Inr groups, s1)
          \<and> (\<forall>g\<in>set groups. entry_id g \<noteq> groupId
                 \<and> toLowerCase (entry_id g) \<noteq> toLowerCase groupId)"
  then have miss: "freshDecision s (membershipKey opts groupId) now = None"
    by (simp add: freshDecision_None_iff)
  from h have nf: "findGroup groups groupId = None"
    by (simp add: findGroup_None_iff)
  from h have ne: "requiredNumbers \<noteq> []"
    and g: "getCachedGroups signalRpcRequest opts False nowInner s = (Inr groups, s1)"
    by simp_all
  note eq = check_not_located [OF ne miss g nf, of parseSignalAllowEntry normalizeE164]
  show "fst r = Inr False"
    unfolding assms eq by simp
  show "map_of (membershipCache (snd r)) (membershipKey opts groupId)
          = Some \<lparr> allowed = False, decidedAt = now \<rparr>"
    unfolding assms eq by (simp add: AList.update_conv')
next
  fix e
  assume "fst r = Inl e"
  then have "checkGroupHasRequiredMember signalRpcRequest parseSignalAllowEntry normalizeE164
               groupId requiredNumbers opts now nowInner s = (Inl e, snd r)"
    unfolding assms by (simp add: prod_eq_iff)
  from check_error [OF this]
  show "\<exists>rq. signalRpcRequest rq = Inl e \<and> rpcLog (snd r) = rpcLog s @ [rq]" .
next
  assume h: "requiredNumbers \<noteq> []
             \<and> (\<forall>d. map_of (membershipCache s) (membershipKey opts groupId) = Some d
                    \<longrightarrow> 60000 \<le> now - decidedAt d)
             \<and> \<not> snapshotFresh s (buildAccountKey (baseUrl opts) (account opts)) nowInner
             \<and> signalRpcRequest
                  \<lparr> rpc_method = ''listGroups'',
                    rpc_params_account = (if truthy (account opts) then account opts else None),
                    rpc_baseUrl = baseUrl opts,
                    rpc_timeoutMs = (case timeoutMs opts of None \<Rightarrow> 10000 | Some t \<Rightarrow> t) \<rparr>
                = Inl failure"
  then have miss: "freshDecision s (membershipKey opts groupId) now = None"
    by (simp add: freshDecision_None_iff)
  from h have ne: "requiredNumbers \<noteq> []"
    and stale: "\<not> snapshotFresh s (buildAccountKey (baseUrl opts) (account opts)) nowInner"
    and thrown: "signalRpcRequest
                  \<lparr> rpc_method = ''listGroups'',
                    rpc_params_account = (if truthy (account opts) then account opts else None),
                    rpc_baseUrl = baseUrl opts,
                    rpc_timeoutMs = (case timeoutMs opts of None \<Rightarrow> 10000 | Some t \<Rightarrow> t) \<rparr>
                = Inl failure"
    by simp_all
  show "r = (Inl failure,
             s\<lparr> rpcLog := rpcLog s @
                  [\<lparr> rpc_method = ''listGroups'',
                     rpc_params_account = (if truthy (account opts) then account opts else None),
                     rpc_baseUrl = baseUrl opts,
                     rpc_timeoutMs = (case timeoutMs opts of None \<Rightarrow> 10000 | Some t \<Rightarrow> t) \<rparr>] \<rparr>)"
    unfolding assms
    by (rule check_transport_failure [where rpc = signalRpcRequest, OF ne miss stale thrown])
qed

text \<open>An unknown group gives false, cached; a failing transport makes the gate fail with
  the transport's error, after one request and with both caches as they were.\<close>

theorem check_group_not_found_witness:
  "fst (checkGroupHasRequiredMember (rpcReturning sampleDirectory) sampleParse sampleNormalize
          ''nonexistent'' [''+15551111111''] BASE_OPTS 1000000 1000001 emptyState) = Inr False
   \<and> map_of (membershipCache (snd (checkGroupHasRequiredMember (rpcReturning sampleDirectory)
          sampleParse sampleNormalize ''nonexistent'' [''+15551111111''] BASE_OPTS 1000000 1000001
          emptyState))) (membershipKey BASE_OPTS ''nonexistent'')
       = Some \<lparr> allowed = False, decidedAt = 1000000 \<rparr>
   \<and> (\<exists>rq. rpcFailing rq = Inl (TransportFailure ''timeout'')
          \<and> rpcLog (snd (checkGroupHasRequiredMember rpcFailing sampleParse sampleNormalize
                ''nonexistent'' [''+15551111111''] BASE_OPTS 1000000 1000001 emptyState))
              = rpcLog emptyState @ [rq])
   \<and> checkGroupHasRequiredMember rpcFailing sampleParse sampleNormalize
        ''nonexistent'' [''+15551111111''] BASE_OPTS 1000000 1000001 emptyState
      = (Inl (TransportFailure ''timeout''),
         emptyState\<lparr> rpcLog :=
           [\<lparr> rpc_method = ''listGroups'', rpc_params_account = Some ''+10000000000'',
              rpc_baseUrl = ''http://localhost:8080'', rpc_timeoutMs = 10000 \<rparr>] \<rparr>)"
proof -
  have absent: "\<forall>g\<in>set sampleDirectory. entry_id g \<noteq> ''nonexistent''
                 \<and> toLowerCase (entry_id g) \<noteq> toLowerCase ''nonexistent''"
    by (simp add: directory_defs)
  have ne: "[''+15551111111''] \<noteq> []"
    by simp
  have stale: "\<not> snapshotFresh emptyState
      (buildAccountKey (baseUrl BASE_OPTS) (account BASE_OPTS)) 1000001"
    by (simp add: snapshotFresh_def emptyState_def)
  have thrown: "rpcFailing
      \<lparr> rpc_method = ''listGroups'',
        rpc_params_account = (if truthy (account BASE_OPTS) then account BASE_OPTS else None),
        rpc_baseUrl = baseUrl BASE_OPTS,
        rpc_timeoutMs = (case timeoutMs BASE_OPTS of None \<Rightarrow> 10000 | Some t \<Rightarrow> t) \<rparr>
      = Inl (TransportFailure ''timeout'')"
    by (simp add: rpcFailing_def)
  have "checkGroupHasRequiredMember rpcFailing sampleParse sampleNormalize
        ''nonexistent'' [''+15551111111''] BASE_OPTS 1000000 1000001 emptyState
      = (Inl (TransportFailure ''timeout''),
         emptyState\<lparr> rpcLog := rpcLog emptyState @
           [\<lparr> rpc_method = ''listGroups'',
              rpc_params_account = (if truthy (account BASE_OPTS) then account BASE_OPTS else None),
              rpc_baseUrl = baseUrl BASE_OPTS,
              rpc_timeoutMs = (case timeoutMs BASE_OPTS of None \<Rightarrow> 10000 | Some t \<Rightarrow> t) \<rparr>] \<rparr>)"
    by (rule check_group_not_found
      [where signalRpcRequest = rpcFailing and parseSignalAllowEntry = sampleParse
         and groupId = "''nonexistent''"
         and requiredNumbers = "[''+15551111111'']" and opts = BASE_OPTS and now = 1000000
         and nowInner = 1000001 and s = emptyState and failure = "TransportFailure ''timeout''",
       OF refl, THEN conjunct2, THEN conjunct2, THEN mp,
       OF conjI [OF ne conjI [OF empty_miss conjI [OF stale thrown]]]])
  then have c: "checkGroupHasRequiredMember rpcFailing sampleParse sampleNormalize
        ''nonexistent'' [''+15551111111''] BASE_OPTS 1000000 1000001 emptyState
      = (Inl (TransportFailure ''timeout''),
         emptyState\<lparr> rpcLog :=
           [\<lparr> rpc_method = ''listGroups'', rpc_params_account = Some ''+10000000000'',
              rpc_baseUrl = ''http://localhost:8080'', rpc_timeoutMs = 10000 \<rparr>] \<rparr>)"
    by (simp add: BASE_OPTS_def truthy_def emptyState_def membershipKey_def)
  then have failed: "fst (checkGroupHasRequiredMember rpcFailing sampleParse sampleNormalize
                ''nonexistent'' [''+15551111111''] BASE_OPTS 1000000 1000001 emptyState)
              = Inl (TransportFailure ''timeout'')"
    by simp
  from check_group_not_found [OF refl, THEN conjunct1, rule_format,
      of "[''+15551111111'']" emptyState BASE_OPTS "''nonexistent''" 1000000
         "rpcReturning sampleDirectory" 1000001 sampleDirectory]
    empty_miss sample_fetch absent
  have a: "fst (checkGroupHasRequiredMember (rpcReturning sampleDirectory) sampleParse
          sampleNormalize ''nonexistent'' [''+15551111111''] BASE_OPTS 1000000 1000001 emptyState)
        = Inr False
     \<and> map_of (membershipCache (snd (checkGroupHasRequiredMember (rpcReturning sampleDirectory)
          sampleParse sampleNormalize ''nonexistent'' [''+15551111111''] BASE_OPTS 1000000 1000001
          emptyState))) (membershipKey BASE_OPTS ''nonexistent'')
       = Some \<lparr> allowed = False, decidedAt = 1000000 \<rparr>"
    by simp
  from check_group_not_found [OF refl, THEN conjunct2, THEN conjunct1, rule_format, OF failed]
  have b: "\<exists>rq. rpcFailing rq = Inl (TransportFailure ''timeout'')
          \<and> rpcLog (snd (checkGroupHasRequiredMember rpcFailing sampleParse sampleNormalize
                ''nonexistent'' [''+15551111111''] BASE_OPTS 1000000 1000001 emptyState))
              = rpcLog emptyState @ [rq]" .
  from a b c show ?thesis by blast
qed

text \<open>
  C8. When the gate locates the group in the directory (no decision younger than 60 s is
  cached for the key, so the lookup is reached) and some required entry parses to the
  wildcard, the gate returns true whatever the members of the group are, also for an
  empty or absent member list, and true is written to the decision cache.
\<close>

theorem check_wildcard:
  assumes "\<exists>n\<in>set requiredNumbers. parseSignalAllowEntry n = Some EntryAny"
    and "\<forall>d. map_of (membershipCache s) (membershipKey opts groupId) = Some d
             \<longrightarrow> 60000 \<le> now - decidedAt d"
    and "getCachedGroups signalRpcRequest opts False nowInner s = (Inr groups, s1)"
    and "(case find (\<lambda>g. entry_id g = groupId) groups of
            Some g \<Rightarrow> Some g
          | None \<Rightarrow> find (\<lambda>g. toLowerCase (entry_id g) = toLowerCase groupId) groups)
         = Some grp"
    and "r = checkGroupHasRequiredMember signalRpcRequest parseSignalAllowEntry normalizeE164
               groupId requiredNumbers opts now nowInner s"
  shows "fst r = Inr True
         \<and> map_of (membershipCache (snd r)) (membershipKey opts groupId)
             = Some \<lparr> allowed = True, decidedAt = now \<rparr>"
proof -
  have ne: "requiredNumbers \<noteq> []"
    using assms(1) by auto
  have miss: "freshDecision s (membershipKey opts groupId) now = None"
    using assms(2) by (simp add: freshDecision_None_iff)
  have loc: "findGroup groups groupId = Some grp"
    using assms(4) by (simp add: findGroup_def)
  show ?thesis
    unfolding assms(5)
      check_located [OF ne miss assms(3) loc refl, of parseSignalAllowEntry normalizeE164]
    using assms(1) by (simp add: AList.update_conv')
qed

text \<open>The wildcard on the sample group that has no members.\<close>

theorem check_wildcard_witness:
  "fst (checkGroupHasRequiredMember (rpcReturning sampleDirectory) sampleParse sampleNormalize
          ''def456'' [''*''] BASE_OPTS 1000000 1000001 emptyState) = Inr True
   \<and> map_of (membershipCache (snd (checkGroupHasRequiredMember (rpcReturning sampleDirectory)
          sampleParse sampleNormalize ''def456'' [''*''] BASE_OPTS 1000000 1000001 emptyState)))
        (membershipKey BASE_OPTS ''def456'')
       = Some \<lparr> allowed = True, decidedAt = 1000000 \<rparr>"
proof -
  have any: "\<exists>n\<in>set [''*'']. sampleParse n = Some EntryAny"
    by (simp add: sampleParse_def)
  show ?thesis
    by (rule check_wildcard [OF any empty_miss sample_fetch sample_locate_empty refl])
qed

text \<open>
  C10. When the requirement list is not empty, the parser returns null for every entry
  of it, and the gate locates the group in the directory (no decision younger than 60 s
  is cached for the key), the gate returns false and caches false: dropping the
  unparsable entries does not turn the requirement into the empty one.
\<close>

theorem check_all_unparsable:
  assumes "requiredNumbers \<noteq> []"
    and "\<forall>n\<in>set requiredNumbers. parseSignalAllowEntry n = None"
    and "\<forall>d. map_of (membershipCache s) (membershipKey opts groupId) = Some d
             \<longrightarrow> 60000 \<le> now - decidedAt d"
    and "getCachedGroups signalRpcRequest opts False nowInner s = (Inr groups, s1)"
    and "(case find (\<lambda>g. entry_id g = groupId) groups of
            Some g \<Rightarrow> Some g
          | None \<Rightarrow> find (\<lambda>g. toLowerCase (entry_id g) = toLowerCase groupId) groups)
         = Some grp"
    and "r = checkGroupHasRequiredMember signalRpcRequest parseSignalAllowEntry normalizeE164
               groupId requiredNumbers opts now nowInner s"
  shows "fst r = Inr False
         \<and> map_of (membershipCache (snd r)) (membershipKey opts groupId)
             = Some \<lparr> allowed = False, decidedAt = now \<rparr>"
proof -
  have miss: "freshDecision s (membershipKey opts groupId) now = None"
    using assms(3) by (simp add: freshDecision_None_iff)
  have loc: "findGroup groups groupId = Some grp"
    using assms(5) by (simp add: findGroup_def)
  show ?thesis
    unfolding assms(6)
      check_located [OF assms(1) miss assms(4) loc refl, of parseSignalAllowEntry normalizeE164]
    using assms(2) by (simp add: AList.update_conv')
qed

text \<open>Two entries the sample parser rejects.\<close>

theorem check_all_unparsable_witness:
  "fst (checkGroupHasRequiredMember (rpcReturning sampleDirectory) sampleParse sampleNormalize
          ''abc123def='' [''garbage'', ''uuid:''] BASE_OPTS 1000000 1000001 emptyState)
     = Inr False
   \<and> map_of (membershipCache (snd (checkGroupHasRequiredMember (rpcReturning sampleDirectory)
          sampleParse sampleNormalize ''abc123def='' [''garbage'', ''uuid:''] BASE_OPTS 1000000
          1000001 emptyState)))
        (membershipKey BASE_OPTS ''abc123def='')
       = Some \<lparr> allowed = False, decidedAt = 1000000 \<rparr>"
proof -
  have ne: "[''garbage'', ''uuid:''] \<noteq> []"
    by simp
  have unparsable: "\<forall>n\<in>set [''garbage'', ''uuid:'']. sampleParse n = None"
    by (simp add: sampleParse_def)
  show ?thesis
    by (rule check_all_unparsable
        [OF ne unparsable empty_miss sample_fetch sample_locate_lowered refl])
qed

text \<open>
  C4 (as amended). Take two consecutive calls with the same decision-cache key and
  non-empty requirement lists. If the first call finds no decision younger than 60 s,
  returns the boolean \<open>b\<close> (so it wrote \<open>b\<close>, stamped \<open>nowFirst\<close>), and the second call
  starts less than 60 s after \<open>nowFirst\<close>, then the second call returns \<open>b\<close> and leaves
  the module state as it was: no RPC call, both caches unchanged. The pair issues at
  most one RPC call: exactly one when the first call found no fresh same-key directory
  snapshot, none when it was served from a fresh snapshot.
\<close>

theorem check_second_call_cached:
  assumes "requiredFirst \<noteq> []" and "requiredSecond \<noteq> []"
    and "membershipKey optsSecond groupIdSecond = membershipKey optsFirst groupIdFirst"
    and "\<forall>d. map_of (membershipCache s) (membershipKey optsFirst groupIdFirst) = Some d
             \<longrightarrow> 60000 \<le> nowFirst - decidedAt d"
    and "checkGroupHasRequiredMember rpcFirst parseFirst normFirst groupIdFirst requiredFirst
           optsFirst nowFirst nowInnerFirst s = (Inr b, s1)"
    and "nowSecond - nowFirst < 60000"
  shows "checkGroupHasRequiredMember rpcSecond parseSecond normSecond groupIdSecond
           requiredSecond optsSecond nowSecond nowInnerSecond s1 = (Inr b, s1)
         \<and> length (rpcLog s1) = length (rpcLog s)
             + (if snapshotFresh s (buildAccountKey (baseUrl optsFirst) (account optsFirst))
                     nowInnerFirst
                then 0 else 1)"
proof -
  have miss: "freshDecision s (membershipKey optsFirst groupIdFirst) nowFirst = None"
    using assms(4) by (simp add: freshDecision_None_iff)
  note w = check_miss_written [OF assms(1) miss assms(5)]
  then have "freshDecision s1 (membershipKey optsSecond groupIdSecond) nowSecond
               = Some \<lparr> allowed = b, decidedAt = nowFirst \<rparr>"
    using assms(3,6) by (simp add: freshDecision_def MEMBERSHIP_CACHE_TTL_MS_def)
  from check_hit [OF assms(2) this] w show ?thesis
    by simp
qed

text \<open>From the empty state the first call fetches the directory (one request); the second
  call, 59.999 s later, is answered from the decision cache although the transport would
  now fail.\<close>

theorem check_second_call_cached_witness:
  "checkGroupHasRequiredMember rpcFailing sampleParse sampleNormalize ''abc123def=''
       [''+15551111111''] BASE_OPTS 1059999 1060000 afterFirstCheck
     = (Inr True, afterFirstCheck)
   \<and> length (rpcLog afterFirstCheck) = 1"
proof -
  have first: "checkGroupHasRequiredMember (rpcReturning sampleDirectory) sampleParse
        sampleNormalize ''abc123def='' [''+15551111111''] BASE_OPTS 1000000 1000001 emptyState
      = (Inr True, afterFirstCheck)"
    unfolding afterFirstCheck_def by (simp add: eval_defs)
  have ne: "[''+15551111111''] \<noteq> []"
    by simp
  have soon: "(1059999::int) - 1000000 < 60000"
    by simp
  from check_second_call_cached [OF ne ne refl empty_miss first soon,
      of rpcFailing sampleParse sampleNormalize 1060000]
  show ?thesis
    by (simp add: gate_defs)
qed

text \<open>C4 as stated fails on a warm directory: the first call of the pair finds a fresh
  snapshot, writes its decision without a request, and the pair issues no RPC call at
  all.\<close>

theorem check_pair_without_rpc:
  "map_of (membershipCache warmState) (membershipKey BASE_OPTS ''abc123def='') = None
   \<and> checkGroupHasRequiredMember (rpcReturning sampleDirectory) sampleParse sampleNormalize
        ''abc123def='' [''+15551111111''] BASE_OPTS 1000000 1000001 warmState
      = (Inr True, afterWarmCheck)
   \<and> checkGroupHasRequiredMember (rpcReturning sampleDirectory) sampleParse sampleNormalize
        ''abc123def='' [''+15551111111''] BASE_OPTS 1000500 1000501 afterWarmCheck
      = (Inr True, afterWarmCheck)
   \<and> membershipCache afterWarmCheck
      = [(membershipKey BASE_OPTS ''abc123def='', \<lparr> allowed = True, decidedAt = 1000000 \<rparr>)]
   \<and> rpcLog warmState = []
   \<and> rpcLog afterWarmCheck = []"
proof -
  have s: "afterWarmCheck = warmState\<lparr> membershipCache :=
      [(membershipKey BASE_OPTS ''abc123def='', \<lparr> allowed = True, decidedAt = 1000000 \<rparr>)] \<rparr>"
    unfolding afterWarmCheck_def by (simp add: eval_defs)
  have a: "checkGroupHasRequiredMember (rpcReturning sampleDirectory) sampleParse sampleNormalize
        ''abc123def='' [''+15551111111''] BASE_OPTS 1000000 1000001 warmState
      = (Inr True, afterWarmCheck)"
    unfolding afterWarmCheck_def by (simp add: eval_defs)
  have b: "checkGroupHasRequiredMember (rpcReturning sampleDirectory) sampleParse sampleNormalize
        ''abc123def='' [''+15551111111''] BASE_OPTS 1000500 1000501 afterWarmCheck
      = (Inr True, afterWarmCheck)"
    unfolding s by (simp add: eval_defs)
  from a b show ?thesis
    by (simp add: s) (simp add: gate_defs)
qed

subsection \<open>Invalidation\<close>

text \<open>
  C5 (as amended). invalidateGroupMembershipCache called with a non-empty groupId
  removes every decision-cache entry whose key ends with the delimiter \<open>|\<close> followed by
  that group id, so the entries of that group under every endpoint/account key, and
  leaves every other entry as it was; in particular the entries of any other group,
  when neither group id contains \<open>|\<close> (base64 ids do not). Called with no argument it
  clears the decision cache. Either way \<open>cachedAt\<close> becomes 0, so from time 300000 on the
  directory snapshot is stale; the snapshot itself, its account key and the request log
  are untouched.
\<close>

theorem invalidate_by_group:
  "(g \<noteq> [] \<longrightarrow>
      (\<forall>k. map_of (membershipCache (invalidateGroupMembershipCache (Some g) s)) k
            = (if endsWith k (''|'' @ g) then None else map_of (membershipCache s) k))
      \<and> (\<forall>accountKey.
            map_of (membershipCache (invalidateGroupMembershipCache (Some g) s))
              (accountKey @ ''|'' @ g) = None)
      \<and> (\<forall>accountKey other.
            other \<noteq> g \<and> CHR ''|'' \<notin> set g \<and> CHR ''|'' \<notin> set other
            \<longrightarrow> map_of (membershipCache (invalidateGroupMembershipCache (Some g) s))
                  (accountKey @ ''|'' @ other)
                = map_of (membershipCache s) (accountKey @ ''|'' @ other)))
   \<and> membershipCache (invalidateGroupMembershipCache None s) = []
   \<and> cachedAt (invalidateGroupMembershipCache x s) = 0
   \<and> cachedGroups (invalidateGroupMembershipCache x s) = cachedGroups s
   \<and> cacheAccountKey (invalidateGroupMembershipCache x s) = cacheAccountKey s
   \<and> rpcLog (invalidateGroupMembershipCache x s) = rpcLog s
   \<and> (300000 \<le> now \<longrightarrow> \<not> snapshotFresh (invalidateGroupMembershipCache x s) accountKey now)"
proof -
  have a: "g \<noteq> [] \<Longrightarrow> map_of (membershipCache (invalidateGroupMembershipCache (Some g) s))
              (ak @ ''|'' @ g) = None" for ak
    by (simp add: map_of_invalidate_Some endsWith_iff)
  have b: "g \<noteq> [] \<Longrightarrow> other \<noteq> g \<Longrightarrow> CHR ''|'' \<notin> set g \<Longrightarrow> CHR ''|'' \<notin> set other \<Longrightarrow>
      map_of (membershipCache (invalidateGroupMembershipCache (Some g) s)) (ak @ ''|'' @ other)
        = map_of (membershipCache s) (ak @ ''|'' @ other)" for ak other
    using endsWith_no_delimiter [of g other ak] by (simp add: map_of_invalidate_Some)
  have c: "300000 \<le> now \<Longrightarrow> \<not> snapshotFresh (invalidateGroupMembershipCache x s) accountKey now"
    by (simp add: snapshotFresh_def invalidate_frame GROUP_ID_CACHE_TTL_MS_def)
  show ?thesis
    using a b c by (simp add: map_of_invalidate_Some invalidate_frame invalidate_None)
qed

text \<open>Invalidating the canonical id of the first sample group removes its entry and keeps
  the entry of group \<open>xabc\<close>.\<close>

theorem invalidate_by_group_witness:
  "map_of (membershipCache (invalidateGroupMembershipCache (Some ''AbC123dEf='') decidedState))
      (''http://localhost:8080|+10000000000'' @ ''|'' @ ''AbC123dEf='') = None
   \<and> map_of (membershipCache (invalidateGroupMembershipCache (Some ''AbC123dEf='') decidedState))
      (''http://localhost:8080|+10000000000'' @ ''|'' @ ''xabc'')
     = Some \<lparr> allowed = False, decidedAt = 999700 \<rparr>
   \<and> membershipCache (invalidateGroupMembershipCache None decidedState) = []
   \<and> cachedAt (invalidateGroupMembershipCache (Some ''AbC123dEf='') decidedState) = 0
   \<and> \<not> snapshotFresh (invalidateGroupMembershipCache (Some ''AbC123dEf='') decidedState)
         ''http://localhost:8080|+10000000000'' 1000000"
proof -
  note t = invalidate_by_group [of "''AbC123dEf=''" decidedState "Some ''AbC123dEf=''" 1000000
      "''http://localhost:8080|+10000000000''"]
  have ne: "''AbC123dEf='' \<noteq> []"
    by simp
  have late: "(300000::int) \<le> 1000000"
    by simp
  have other: "''xabc'' \<noteq> ''AbC123dEf='' \<and> CHR ''|'' \<notin> set ''AbC123dEf=''
      \<and> CHR ''|'' \<notin> set ''xabc''"
    by simp
  have kept: "map_of (membershipCache decidedState)
      (''http://localhost:8080|+10000000000'' @ ''|'' @ ''xabc'')
     = Some \<lparr> allowed = False, decidedAt = 999700 \<rparr>"
    by (simp add: decidedState_def)
  from t ne late other kept show ?thesis
    by (metis (no_types, lifting))
qed

text \<open>C5 as stated fails on a key that ends with the group id without the delimiter
  before it: the entry of group \<open>xabc\<close> has a key ending with \<open>abc\<close> and survives the
  invalidation of group \<open>abc\<close>.\<close>

theorem invalidate_keeps_suffix_key:
  "endsWith (membershipKey BASE_OPTS ''xabc'') ''abc''
   \<and> map_of (membershipCache (invalidateGroupMembershipCache (Some ''abc'') decidedState))
        (membershipKey BASE_OPTS ''xabc'')
      = Some \<lparr> allowed = False, decidedAt = 999700 \<rparr>"
  by (simp add: invalidateGroupMembershipCache_def endsWith_def gate_defs)

text \<open>
  C9. Invalidation by group id is case-sensitive and anchored at the delimiter:
  invalidateGroupMembershipCache(g), for a non-empty \<open>g\<close>, deletes exactly the entries
  whose key ends with \<open>|\<close> followed by \<open>g\<close>. So a decision cached under a group id \<open>variant\<close> that
  differs from \<open>g\<close> only in letter case survives the invalidation, and a later gate call
  for \<open>variant\<close> made less than 60 s after that decision was stamped still returns its
  boolean, without an RPC call and without any change of state.
\<close>

theorem invalidate_case_sensitive:
  "g \<noteq> [] \<longrightarrow>
     (\<forall>k. map_of (membershipCache (invalidateGroupMembershipCache (Some g) s)) k
           = (if endsWith k (''|'' @ g) then None else map_of (membershipCache s) k))
     \<and> (toLowerCase variant = toLowerCase g \<and> variant \<noteq> g
         \<and> map_of (membershipCache s) (membershipKey opts variant) = Some d
        \<longrightarrow> map_of (membershipCache (invalidateGroupMembershipCache (Some g) s))
              (membershipKey opts variant) = Some d
            \<and> (requiredNumbers \<noteq> [] \<and> now - decidedAt d < 60000
               \<longrightarrow> checkGroupHasRequiredMember signalRpcRequest parseSignalAllowEntry
                     normalizeE164 variant requiredNumbers opts now nowInner
                     (invalidateGroupMembershipCache (Some g) s)
                   = (Inr (allowed d), invalidateGroupMembershipCache (Some g) s)))"
proof (intro impI conjI allI)
  fix k
  assume "g \<noteq> []"
  then show "map_of (membershipCache (invalidateGroupMembershipCache (Some g) s)) k
           = (if endsWith k (''|'' @ g) then None else map_of (membershipCache s) k)"
    by (rule map_of_invalidate_Some)
next
  assume ne: "g \<noteq> []"
    and h: "toLowerCase variant = toLowerCase g \<and> variant \<noteq> g
         \<and> map_of (membershipCache s) (membershipKey opts variant) = Some d"
  then have "length variant = length g"
    by (metis length_toLowerCase)
  with h have "\<not> endsWith (membershipKey opts variant) (''|'' @ g)"
    unfolding membershipKey_def by (simp only: endsWith_same_length) simp
  with h ne
  show kept: "map_of (membershipCache (invalidateGroupMembershipCache (Some g) s))
              (membershipKey opts variant) = Some d"
    by (simp add: map_of_invalidate_Some)
  assume "requiredNumbers \<noteq> [] \<and> now - decidedAt d < 60000"
  then have ne2: "requiredNumbers \<noteq> []"
    and "freshDecision (invalidateGroupMembershipCache (Some g) s)
            (membershipKey opts variant) now = Some d"
    using kept by (simp_all add: freshDecision_def MEMBERSHIP_CACHE_TTL_MS_def)
  then show "checkGroupHasRequiredMember signalRpcRequest parseSignalAllowEntry
                     normalizeE164 variant requiredNumbers opts now nowInner
                     (invalidateGroupMembershipCache (Some g) s)
                   = (Inr (allowed d), invalidateGroupMembershipCache (Some g) s)"
    by (rule check_hit)
qed

text \<open>Invalidating the canonical id removes its entry, keeps the entry cached under the
  lower-cased id, and the gate still serves that entry.\<close>

theorem invalidate_case_sensitive_witness:
  "map_of (membershipCache (invalidateGroupMembershipCache (Some ''AbC123dEf='') decidedState))
      (membershipKey BASE_OPTS ''AbC123dEf='') = None
   \<and> map_of (membershipCache (invalidateGroupMembershipCache (Some ''AbC123dEf='') decidedState))
      (membershipKey BASE_OPTS ''abc123def='') = Some \<lparr> allowed = True, decidedAt = 999500 \<rparr>
   \<and> checkGroupHasRequiredMember rpcFailing sampleParse sampleNormalize ''abc123def=''
        [''+15559999999''] BASE_OPTS 1000000 1000001
        (invalidateGroupMembershipCache (Some ''AbC123dEf='') decidedState)
      = (Inr True, invalidateGroupMembershipCache (Some ''AbC123dEf='') decidedState)"
proof -
  note t = invalidate_case_sensitive [of "''AbC123dEf=''" decidedState "''abc123def=''" BASE_OPTS
      "\<lparr> allowed = True, decidedAt = 999500 \<rparr>" "[''+15559999999'']" 1000000
      rpcFailing sampleParse sampleNormalize 1000001]
  have ne: "''AbC123dEf='' \<noteq> []"
    by simp
  have variant: "toLowerCase ''abc123def='' = toLowerCase ''AbC123dEf=''
      \<and> ''abc123def='' \<noteq> ''AbC123dEf=''"
    by (simp add: toLowerCase_def lowerChar_def)
  have cached: "map_of (membershipCache decidedState) (membershipKey BASE_OPTS ''abc123def='')
      = Some \<lparr> allowed = True, decidedAt = 999500 \<rparr>"
    by (simp add: gate_defs)
  have live: "[''+15559999999''] \<noteq> []
      \<and> (1000000::int) - decidedAt \<lparr> allowed = True, decidedAt = 999500 \<rparr> < 60000"
    by simp
  have ends: "endsWith (membershipKey BASE_OPTS ''AbC123dEf='') (''|'' @ ''AbC123dEf='')"
    by (simp add: endsWith_def gate_defs)
  from t ne have "map_of (membershipCache
        (invalidateGroupMembershipCache (Some ''AbC123dEf='') decidedState))
        (membershipKey BASE_OPTS ''AbC123dEf='')
      = (if endsWith (membershipKey BASE_OPTS ''AbC123dEf='') (''|'' @ ''AbC123dEf='') then None
         else map_of (membershipCache decidedState) (membershipKey BASE_OPTS ''AbC123dEf=''))"
    by blast
  then have gone: "map_of (membershipCache
        (invalidateGroupMembershipCache (Some ''AbC123dEf='') decidedState))
        (membershipKey BASE_OPTS ''AbC123dEf='') = None"
    by (simp only: ends if_True)
  from t ne variant cached live
  have "map_of (membershipCache (invalidateGroupMembershipCache (Some ''AbC123dEf='') decidedState))
      (membershipKey BASE_OPTS ''abc123def='') = Some \<lparr> allowed = True, decidedAt = 999500 \<rparr>
   \<and> checkGroupHasRequiredMember rpcFailing sampleParse sampleNormalize ''abc123def=''
        [''+15559999999''] BASE_OPTS 1000000 1000001
        (invalidateGroupMembershipCache (Some ''AbC123dEf='') decidedState)
      = (Inr (allowed \<lparr> allowed = True, decidedAt = 999500 \<rparr>),
         invalidateGroupMembershipCache (Some ''AbC123dEf='') decidedState)"
    by blast
  with gone show ?thesis
    by simp
qed

subsection \<open>The resolver\<close>

text \<open>
  C2. When the fast path does not answer (no fresh same-key snapshot holds a group whose
  id equals the query) and the fetched group list holds exactly one group whose
  lower-cased id equals the lower-cased query, resolveSignalGroupId returns that group's
  stored id, whatever the casing of the query. And when a fresh same-key cached snapshot
  holds a group whose id equals the query, that id is returned and the module state,
  request log included, is unchanged: no RPC fetch is issued.
\<close>

theorem resolve_unique_match:
  "(\<not> (snapshotFresh s (buildAccountKey (baseUrl opts) (account opts)) now
        \<and> (\<exists>cached. cachedGroups s = Some cached \<and> (\<exists>g\<in>set cached. entry_id g = groupId)))
    \<and> listGroups signalRpcRequest opts s = (Inr groups, s1)
    \<and> filter (\<lambda>g. toLowerCase (entry_id g) = toLowerCase groupId) groups = [grp]
    \<longrightarrow> fst (resolveSignalGroupId signalRpcRequest groupId opts now nowInner s)
          = Inr (entry_id grp))
   \<and> (snapshotFresh s (buildAccountKey (baseUrl opts) (account opts)) now
      \<and> cachedGroups s = Some cached \<and> (\<exists>g\<in>set cached. entry_id g = groupId)
      \<longrightarrow> resolveSignalGroupId signalRpcRequest groupId opts now nowInner s
            = (Inr groupId, s))"
proof (intro conjI impI)
  assume h: "\<not> (snapshotFresh s (buildAccountKey (baseUrl opts) (account opts)) now
        \<and> (\<exists>cached. cachedGroups s = Some cached \<and> (\<exists>g\<in>set cached. entry_id g = groupId)))
    \<and> listGroups signalRpcRequest opts s = (Inr groups, s1)
    \<and> filter (\<lambda>g. toLowerCase (entry_id g) = toLowerCase groupId) groups = [grp]"
  then have fetch: "fst (resolveSignalGroupId signalRpcRequest groupId opts now nowInner s) =
           (case find (\<lambda>g. entry_id g = groupId) groups of
              Some exact \<Rightarrow> Inr (entry_id exact)
            | None \<Rightarrow>
                (case filter (\<lambda>g. toLowerCase (entry_id g) = toLowerCase groupId) groups of
                   [m] \<Rightarrow> Inr (entry_id m)
                 | [] \<Rightarrow> Inl (Error (notFoundMessage groupId (length groups)))
                 | ms \<Rightarrow> Inl (Error (ambiguousMessage groupId (length ms)))))"
    using resolve_fetch by blast
  from h have one: "filter (\<lambda>g. toLowerCase (entry_id g) = toLowerCase groupId) groups = [grp]"
    by simp
  show "fst (resolveSignalGroupId signalRpcRequest groupId opts now nowInner s)
          = Inr (entry_id grp)"
  proof (cases "find (\<lambda>g. entry_id g = groupId) groups")
    case None
    with fetch one show ?thesis by simp
  next
    case (Some exact)
    then have "exact \<in> set groups" and "entry_id exact = groupId"
      by (auto dest: find_SomeD)
    then have "exact \<in> set (filter (\<lambda>g. toLowerCase (entry_id g) = toLowerCase groupId) groups)"
      by simp
    with one have "exact = grp" by simp
    with fetch Some show ?thesis by simp
  qed
next
  assume h: "snapshotFresh s (buildAccountKey (baseUrl opts) (account opts)) now
      \<and> cachedGroups s = Some cached \<and> (\<exists>g\<in>set cached. entry_id g = groupId)"
  then obtain exact where "find (\<lambda>g. entry_id g = groupId) cached = Some exact"
    and "entry_id exact = groupId"
    using find_exact_Some by blast
  with h show "resolveSignalGroupId signalRpcRequest groupId opts now nowInner s
            = (Inr groupId, s)"
    using resolve_fast by metis
qed

text \<open>The lower-cased query resolves to the stored id after a fetch; a canonical query is
  answered from the warm snapshot although the transport would fail.\<close>

theorem resolve_unique_match_witness:
  "fst (resolveSignalGroupId (rpcReturning sampleDirectory) ''abc123def='' BASE_OPTS
          1000000 1000001 emptyState) = Inr ''AbC123dEf=''
   \<and> resolveSignalGroupId rpcFailing ''def456'' BASE_OPTS 1000000 1000001 warmState
       = (Inr ''def456'', warmState)"
proof -
  have one: "filter (\<lambda>g. toLowerCase (entry_id g) = toLowerCase ''abc123def='') sampleDirectory
      = [makeGroup ''AbC123dEf=''
          [\<lparr> number = Some ''+15551111111'', uuid = Some ''uuid-1'' \<rparr>,
           \<lparr> number = None, uuid = Some ''uuid-2'' \<rparr>]]"
    by (simp add: directory_defs)
  have fresh: "snapshotFresh warmState (buildAccountKey (baseUrl BASE_OPTS) (account BASE_OPTS))
      1000000"
    by (simp add: gate_defs)
  have snap: "cachedGroups warmState = Some sampleDirectory"
    by (simp add: warmState_def)
  have held: "\<exists>g\<in>set sampleDirectory. entry_id g = ''def456''"
    by (simp add: directory_defs)
  from resolve_unique_match [THEN conjunct1, THEN mp,
      OF conjI [OF empty_no_fast_path conjI [OF sample_listGroups one]], of 1000001]
  have a: "fst (resolveSignalGroupId (rpcReturning sampleDirectory) ''abc123def='' BASE_OPTS
          1000000 1000001 emptyState) = Inr ''AbC123dEf=''"
    by (simp add: makeGroup_def)
  from resolve_unique_match [THEN conjunct2, THEN mp,
      OF conjI [OF fresh conjI [OF snap held]], of rpcFailing 1000001]
  have b: "resolveSignalGroupId rpcFailing ''def456'' BASE_OPTS 1000000 1000001 warmState
       = (Inr ''def456'', warmState)" .
  from a b show ?thesis by simp
qed

text \<open>
  C3 (as amended). Take a call whose fast path does not answer and whose fetch delivers
  the list \<open>groups\<close>, and let \<open>matches\<close> be the groups whose lower-cased id equals the
  lower-cased query. With no match the resolver fails with the not-found error, whose
  message ends with the number of groups scanned. With a group whose id equals the
  query, it returns the query, however many groups match case-insensitively. With no
  such group, it fails with the ambiguity error, whose message holds the number of
  matches, when there are two or more matches, and returns the stored id of the match
  when there is exactly one.
\<close>

theorem resolve_failures:
  assumes "\<not> (snapshotFresh s (buildAccountKey (baseUrl opts) (account opts)) now
              \<and> (\<exists>cached. cachedGroups s = Some cached
                    \<and> (\<exists>g\<in>set cached. entry_id g = groupId)))"
    and "listGroups signalRpcRequest opts s = (Inr groups, s1)"
    and "matches = filter (\<lambda>g. toLowerCase (entry_id g) = toLowerCase groupId) groups"
    and "r = fst (resolveSignalGroupId signalRpcRequest groupId opts now nowInner s)"
  shows "(matches = [] \<longrightarrow> r = Inl (Error (notFoundMessage groupId (length groups))))
       \<and> ((\<exists>g\<in>set groups. entry_id g = groupId) \<longrightarrow> r = Inr groupId)
       \<and> ((\<forall>g\<in>set groups. entry_id g \<noteq> groupId) \<and> 2 \<le> length matches
            \<longrightarrow> r = Inl (Error (ambiguousMessage groupId (length matches))))
       \<and> ((\<forall>g\<in>set groups. entry_id g \<noteq> groupId) \<and> matches = [grp]
            \<longrightarrow> r = Inr (entry_id grp))"
proof -
  note fetch = resolve_fetch [OF assms(1,2), of nowInner, folded assms(3,4)]
  have none: "(\<forall>g\<in>set groups. entry_id g \<noteq> groupId)
      \<Longrightarrow> find (\<lambda>g. entry_id g = groupId) groups = None"
    by (simp add: find_None_iff)
  have a: "matches = [] \<longrightarrow> r = Inl (Error (notFoundMessage groupId (length groups)))"
  proof
    assume e: "matches = []"
    then have "\<forall>g\<in>set groups. entry_id g \<noteq> groupId"
      unfolding assms(3) by (auto simp: filter_empty_conv)
    from none [OF this] e fetch show "r = Inl (Error (notFoundMessage groupId (length groups)))"
      by simp
  qed
  have b: "(\<exists>g\<in>set groups. entry_id g = groupId) \<longrightarrow> r = Inr groupId"
  proof
    assume "\<exists>g\<in>set groups. entry_id g = groupId"
    from find_exact_Some [OF this] fetch show "r = Inr groupId"
      by auto
  qed
  have c: "(\<forall>g\<in>set groups. entry_id g \<noteq> groupId) \<and> 2 \<le> length matches
            \<longrightarrow> r = Inl (Error (ambiguousMessage groupId (length matches)))"
  proof
    assume h: "(\<forall>g\<in>set groups. entry_id g \<noteq> groupId) \<and> 2 \<le> length matches"
    then obtain x y zs where "matches = x # y # zs"
      by (cases matches; cases "tl matches") auto
    with h none fetch show "r = Inl (Error (ambiguousMessage groupId (length matches)))"
      by simp
  qed
  have d: "(\<forall>g\<in>set groups. entry_id g \<noteq> groupId) \<and> matches = [grp]
            \<longrightarrow> r = Inr (entry_id grp)"
    using none fetch by simp
  from a b c d show ?thesis by blast
qed

text \<open>The four outcomes, with the messages written out.\<close>

theorem resolve_failures_witness:
  "fst (resolveSignalGroupId (rpcReturning sampleDirectory) ''nonexistent'' BASE_OPTS
          1000000 1000001 emptyState)
     = Inl (Error (''Signal group not found: no group matches \"nonexistent\" ''
                   @ ''(case-insensitive). Known groups: 2''))
   \<and> fst (resolveSignalGroupId (rpcReturning twinDirectory) ''abc'' BASE_OPTS
          1000000 1000001 emptyState) = Inr ''abc''
   \<and> fst (resolveSignalGroupId (rpcReturning twinDirectory) ''aBC'' BASE_OPTS
          1000000 1000001 emptyState)
     = Inl (Error (''Signal group ID \"aBC\" is ambiguous: 3 groups match ''
                   @ ''case-insensitively. Provide the exact base64 group ID.''))
   \<and> fst (resolveSignalGroupId (rpcReturning sampleDirectory) ''abc123def='' BASE_OPTS
          1000000 1000001 emptyState) = Inr ''AbC123dEf=''"
proof -
  note t = resolve_failures [OF empty_no_fast_path sample_listGroups refl refl]
  have a: "fst (resolveSignalGroupId (rpcReturning sampleDirectory) ''nonexistent'' BASE_OPTS
          1000000 1000001 emptyState)
     = Inl (Error (notFoundMessage ''nonexistent'' (length sampleDirectory)))"
    by (rule t [THEN conjunct1, rule_format]) (simp add: directory_defs)
  have b: "fst (resolveSignalGroupId (rpcReturning twinDirectory) ''abc'' BASE_OPTS
          1000000 1000001 emptyState) = Inr ''abc''"
    by (rule t [THEN conjunct2, THEN conjunct1, rule_format]) (simp add: directory_defs)
  have "fst (resolveSignalGroupId (rpcReturning twinDirectory) ''aBC'' BASE_OPTS
          1000000 1000001 emptyState)
     = Inl (Error (ambiguousMessage ''aBC''
          (length (filter (\<lambda>g. toLowerCase (entry_id g) = toLowerCase ''aBC'') twinDirectory))))"
    by (rule t [THEN conjunct2, THEN conjunct2, THEN conjunct1, rule_format])
      (simp add: directory_defs)
  moreover have "length (filter (\<lambda>g. toLowerCase (entry_id g) = toLowerCase ''aBC'')
      twinDirectory) = 3"
    by (simp add: directory_defs)
  ultimately have c: "fst (resolveSignalGroupId (rpcReturning twinDirectory) ''aBC'' BASE_OPTS
          1000000 1000001 emptyState)
     = Inl (Error (ambiguousMessage ''aBC'' 3))"
    by (simp only:)
  have "fst (resolveSignalGroupId (rpcReturning sampleDirectory) ''abc123def='' BASE_OPTS
          1000000 1000001 emptyState)
     = Inr (entry_id (makeGroup ''AbC123dEf=''
          [\<lparr> number = Some ''+15551111111'', uuid = Some ''uuid-1'' \<rparr>,
           \<lparr> number = None, uuid = Some ''uuid-2'' \<rparr>]))"
    by (rule t [THEN conjunct2, THEN conjunct2, THEN conjunct2, rule_format])
      (simp add: directory_defs)
  then have d: "fst (resolveSignalGroupId (rpcReturning sampleDirectory) ''abc123def='' BASE_OPTS
          1000000 1000001 emptyState) = Inr ''AbC123dEf=''"
    by (simp add: makeGroup_def)
  have two: "showNat 2 = ''2''" and three: "showNat 3 = ''3''"
    by (simp_all add: showNat.simps digitChar_def)
  have "length sampleDirectory = 2"
    by (simp add: sampleDirectory_def)
  with a have a': "fst (resolveSignalGroupId (rpcReturning sampleDirectory) ''nonexistent''
          BASE_OPTS 1000000 1000001 emptyState)
     = Inl (Error (notFoundMessage ''nonexistent'' 2))"
    by (simp only:)
  from a' b c d show ?thesis
    by (simp add: notFoundMessage_def ambiguousMessage_def two three)
qed

text \<open>C3 as stated fails when one of several case-insensitive matches is an exact match:
  three groups match \<open>abc\<close> case-insensitively and the resolver returns \<open>abc\<close>.\<close>

theorem resolve_exact_among_several:
  "length (caseInsensitiveMatches twinDirectory ''abc'') = 3
   \<and> listGroups (rpcReturning twinDirectory) BASE_OPTS emptyState
       = (Inr twinDirectory, snd (listGroups (rpcReturning twinDirectory) BASE_OPTS emptyState))
   \<and> fst (resolveSignalGroupId (rpcReturning twinDirectory) ''abc'' BASE_OPTS
          1000000 1000001 emptyState) = Inr ''abc''"
  by (simp add: resolveSignalGroupId_def caseInsensitiveMatches_def gate_defs directory_defs)

end
